theory Spec2Isabelle
  imports Main
begin

section \<open>The crawler of 07-crawl/main.go\<close>

text \<open>
  The program is a concurrent web crawler: a URL frontier (a buffered channel of pending
  URLs with a visited map and a depth map), a fetcher with a per-host rate limiter, and a
  pool of worker goroutines. What the Go standard library and the network do is not part
  of the repository; it enters the model as a value of the record \<open>world\<close>, and every
  theorem holds for every world unless it names one.

  Go's \<open>int\<close> is modelled by \<open>int\<close>; the only arithmetic on it is \<open>depth+1\<close> in the
  worker, where the 64-bit wrap-around is written out (\<open>wrap64\<close>). Instants and durations
  (\<open>time.Time\<close>, \<open>time.Duration\<close>) are integers, in nanoseconds on one monotonic clock.
\<close>

subsection \<open>Buffered channels\<close>

text \<open>
  A buffered channel \<open>make(chan T, n)\<close> is its buffer and its capacity. The program uses
  its channels of strings and of results only inside \<open>select\<close> statements with a
  \<open>default\<close> case: a send that is ready exactly when the buffer has room, a receive that
  is ready exactly when the buffer is not empty. \<open>None\<close> is the \<open>default\<close> case.
  \<open>URLFrontier.Close\<close> has no caller in the program, so the channels stay open.
\<close>

record 'a chan =
  buf :: "'a list"
  cap :: nat

definition make_chan :: "nat \<Rightarrow> 'a chan" where
  "make_chan n = \<lparr>buf = [], cap = n\<rparr>"

definition select_send :: "'a \<Rightarrow> 'a chan \<Rightarrow> 'a chan option" where
  "select_send v c = (if length (buf c) < cap c then Some (c\<lparr>buf := buf c @ [v]\<rparr>) else None)"

definition select_recv :: "'a chan \<Rightarrow> ('a \<times> 'a chan) option" where
  "select_recv c = (case buf c of [] \<Rightarrow> None | v # rest \<Rightarrow> Some (v, c\<lparr>buf := rest\<rparr>))"

subsection \<open>The world outside the repository\<close>

datatype error = Err string

text \<open>
  Of a parsed \<open>*url.URL\<close> the program reads the scheme, \<open>Hostname()\<close> and \<open>String()\<close>.
\<close>

record url =
  url_Scheme :: string
  url_Hostname :: string
  url_String :: string

text \<open>
  Of an \<open>*http.Response\<close> the program reads the status code, \<open>Header.Get("Location")\<close>
  (the empty string when the header is absent) and the body through \<open>io.ReadAll\<close>, which
  gives the bytes or an error.
\<close>

record response =
  resp_StatusCode :: int
  resp_Location :: string
  resp_Body :: "error + string"

text \<open>
  A node of the tree that \<open>html.Parse\<close> returns: whether it is an element node, its
  \<open>Data\<close>, its attributes (key and value) and its children in order.
\<close>

datatype node = Node bool string "(string \<times> string) list" "node list"

record world =
  url_Parse :: "string \<Rightarrow> error + url"
  url_Resolve :: "url \<Rightarrow> string \<Rightarrow> error + url"
  http_NewRequest :: "string \<Rightarrow> error option"
  client_Do :: "string \<Rightarrow> string \<Rightarrow> error + response"
  html_Parse :: "string \<Rightarrow> error + node"

text \<open>
  \<open>url_Parse\<close> is \<open>url.Parse\<close>; \<open>url_Resolve base ref\<close> is \<open>base.Parse(ref)\<close>;
  \<open>http_NewRequest u\<close> is the error of \<open>http.NewRequest("GET", u, nil)\<close>, if any;
  \<open>client_Do agent u\<close> is what \<open>client.Do\<close> returns for the GET request to \<open>u\<close> with
  that User-Agent (an error also when the 30 seconds of the client's timeout pass): the
  last response, after the client has followed the redirects it follows.
\<close>

subsection \<open>URLFrontier\<close>

record URLFrontier =
  urls :: "string chan"
  visited :: "string \<rightharpoonup> bool"
  maxDepth :: int
  depth :: "string \<rightharpoonup> int"

definition NewURLFrontier :: "int \<Rightarrow> URLFrontier" where
  "NewURLFrontier md =
     \<lparr>urls = make_chan 1000, visited = Map.empty, maxDepth = md, depth = Map.empty\<rparr>"

text \<open>Reading a Go map at a missing key gives the zero value.\<close>

definition is_visited :: "URLFrontier \<Rightarrow> string \<Rightarrow> bool" where
  "is_visited uf k = (case visited uf k of None \<Rightarrow> False | Some b \<Rightarrow> b)"

definition depth_of :: "URLFrontier \<Rightarrow> string \<Rightarrow> int" where
  "depth_of uf k = (case depth uf k of None \<Rightarrow> 0 | Some d \<Rightarrow> d)"

text \<open>
  \<open>AddURL\<close> runs under \<open>uf.mu\<close> from its first statement to its return and contains no
  operation that can wait, so it is one atomic step on the frontier.
\<close>

definition AddURL :: "world \<Rightarrow> string \<Rightarrow> int \<Rightarrow> URLFrontier \<Rightarrow> URLFrontier" where
  "AddURL w rawURL currentDepth uf =
     (case url_Parse w rawURL of
        Inl err \<Rightarrow> uf
      | Inr parsedURL \<Rightarrow>
          let normalizedURL = url_String parsedURL in
          if is_visited uf normalizedURL \<or> currentDepth \<ge> maxDepth uf then uf
          else
            let uf1 = uf\<lparr>visited := (visited uf)(normalizedURL \<mapsto> True),
                        depth := (depth uf)(normalizedURL \<mapsto> currentDepth)\<rparr>
            in (case select_send normalizedURL (urls uf1) of
                  Some c \<Rightarrow> uf1\<lparr>urls := c\<rparr>
                | None \<Rightarrow> uf1))"

definition GetURL :: "URLFrontier \<Rightarrow> (string \<times> int \<times> bool) \<times> URLFrontier" where
  "GetURL uf =
     (case select_recv (urls uf) of
        Some (u, c) \<Rightarrow> ((u, depth_of uf u, True), uf\<lparr>urls := c\<rparr>)
      | None \<Rightarrow> (([], 0, False), uf))"

text \<open>The normalized form of a raw URL, when \<open>url.Parse\<close> accepts it.\<close>

definition normalized :: "world \<Rightarrow> string \<Rightarrow> string option" where
  "normalized w rawURL =
     (case url_Parse w rawURL of Inl err \<Rightarrow> None | Inr parsedURL \<Rightarrow> Some (url_String parsedURL))"

subsection \<open>CrawlResult and Fetcher\<close>

datatype URLStatus = StatusPending | StatusFetched | StatusError | StatusRedirect

text \<open>A nil slice of links is the empty list, a nil error is \<open>None\<close>.\<close>

record CrawlResult =
  URL :: string
  Status :: URLStatus
  Content :: string
  Links :: "string list"
  Error :: "error option"
  StatusCode :: int
  RedirectURL :: string

text \<open>
  The mutex \<open>mu\<close> of the fetcher is held across \<open>time.Sleep\<close>, so its state matters to
  the timing of a call: \<open>None\<close> when it has never been locked, \<open>Some t\<close> when its last
  holder unlocks it at instant \<open>t\<close>.
\<close>

record Fetcher =
  userAgent :: string
  rateLimiter :: "string \<rightharpoonup> int"
  mu :: "int option"
  delay :: int

definition NewFetcher :: "int \<Rightarrow> Fetcher" where
  "NewFetcher d =
     \<lparr>userAgent = ''GoCrawler/1.0 (+https://example.com/bot)'', rateLimiter = Map.empty,
      mu = None, delay = d\<rparr>"

text \<open>
  Lines 141 to 149 of \<open>Fetch\<close>, the rate limiter. \<open>now\<close> is the instant at which the
  calling goroutine reaches \<open>f.mu.Lock()\<close>. The clock is ideal: \<open>Lock\<close> returns as soon
  as the mutex is free, \<open>time.Sleep d\<close> lasts \<open>d\<close> when \<open>d\<close> is positive, and the other
  statements take no time, so both readings of \<open>time.Since(lastRequest)\<close> are equal.
  Any real execution is later at every point. Calls are applied to the fetcher in the
  order in which they acquire the mutex.
\<close>

definition Fetch_rate_limit :: "string \<Rightarrow> int \<Rightarrow> Fetcher \<Rightarrow> Fetcher" where
  "Fetch_rate_limit hostname now f =
     (let locked = (case mu f of None \<Rightarrow> now | Some released \<Rightarrow> max now released);
          woken = (case rateLimiter f hostname of
                     None \<Rightarrow> locked
                   | Some lastRequest \<Rightarrow>
                       if locked - lastRequest < delay f
                       then locked + (delay f - (locked - lastRequest))
                       else locked)
      in f\<lparr>rateLimiter := (rateLimiter f)(hostname \<mapsto> woken), mu := Some woken\<rparr>)"

definition Fetch :: "world \<Rightarrow> string \<Rightarrow> int \<Rightarrow> Fetcher \<Rightarrow> CrawlResult \<times> Fetcher" where
  "Fetch w rawURL now f =
     (let result = \<lparr>URL = rawURL, Status = StatusPending, Content = [], Links = [],
                     Error = None, StatusCode = 0, RedirectURL = []\<rparr>
      in case url_Parse w rawURL of
           Inl err \<Rightarrow> (result\<lparr>Status := StatusError, Error := Some err\<rparr>, f)
         | Inr parsedURL \<Rightarrow>
             (let hostname = url_Hostname parsedURL;
                  f1 = Fetch_rate_limit hostname now f
              in case http_NewRequest w rawURL of
                   Some err \<Rightarrow> (result\<lparr>Status := StatusError, Error := Some err\<rparr>, f1)
                 | None \<Rightarrow>
                     (case client_Do w (userAgent f1) rawURL of
                        Inl err \<Rightarrow> (result\<lparr>Status := StatusError, Error := Some err\<rparr>, f1)
                      | Inr resp \<Rightarrow>
                          (let result1 = result\<lparr>StatusCode := resp_StatusCode resp\<rparr>
                           in if resp_StatusCode resp \<ge> 300 \<and> resp_StatusCode resp < 400
                              then (result1\<lparr>Status := StatusRedirect,
                                             RedirectURL := resp_Location resp\<rparr>, f1)
                              else (case resp_Body resp of
                                      Inl err \<Rightarrow>
                                        (result1\<lparr>Status := StatusError, Error := Some err\<rparr>, f1)
                                    | Inr body \<Rightarrow>
                                        (result1\<lparr>Content := body, Status := StatusFetched\<rparr>,
                                         f1))))))"

subsection \<open>Parser\<close>

record Parser =
  baseURL :: url

definition NewParser :: "world \<Rightarrow> string \<Rightarrow> error + Parser" where
  "NewParser w base =
     (case url_Parse w base of Inl err \<Rightarrow> Inl err | Inr parsedURL \<Rightarrow> Inr \<lparr>baseURL = parsedURL\<rparr>)"

fun extractLinks :: "world \<Rightarrow> node \<Rightarrow> url \<Rightarrow> string list \<Rightarrow> string list" where
  "extractLinks w (Node element dat attrs children) base links =
     fold (\<lambda>c acc. extractLinks w c base acc) children
       (if element \<and> dat = ''a''
        then fold (\<lambda>attr acc.
                     if fst attr = ''href''
                     then (case url_Resolve w base (snd attr) of
                             Inl err \<Rightarrow> acc
                           | Inr resolvedURL \<Rightarrow>
                               if url_Scheme resolvedURL = ''http''
                                  \<or> url_Scheme resolvedURL = ''https''
                               then acc @ [url_String resolvedURL]
                               else acc)
                     else acc) attrs links
        else links)"

text \<open>\<open>Parse\<close> and \<open>extractLinks\<close> never read the receiver's \<open>baseURL\<close>.\<close>

definition Parse :: "world \<Rightarrow> string \<Rightarrow> string \<Rightarrow> string list" where
  "Parse w content currentURL =
     (case url_Parse w currentURL of
        Inl err \<Rightarrow> []
      | Inr currentParsedURL \<Rightarrow>
          (case html_Parse w content of
             Inl err \<Rightarrow> []
           | Inr doc \<Rightarrow> extractLinks w doc currentParsedURL []))"

subsection \<open>Indexer\<close>

text \<open>
  The indexer writes text to its \<open>output\<close> (here \<open>out\<close>) for every result whose status is not
  \<open>StatusPending\<close>. The model keeps the results written, in order, not their rendering.
\<close>

record Indexer =
  out :: "CrawlResult list"

definition NewIndexer :: Indexer where
  "NewIndexer = \<lparr>out = []\<rparr>"

definition Index :: "CrawlResult \<Rightarrow> Indexer \<Rightarrow> Indexer" where
  "Index result ix =
     (case Status result of
        StatusPending \<Rightarrow> ix
      | _ \<Rightarrow> ix\<lparr>out := out ix @ [result]\<rparr>)"

subsection \<open>Crawler\<close>

record Crawler =
  frontier :: URLFrontier
  fetcher :: Fetcher
  parser :: "Parser option"
  indexer :: Indexer
  workers :: int

definition NewCrawler :: "int \<Rightarrow> int \<Rightarrow> int \<Rightarrow> Crawler" where
  "NewCrawler md n d =
     \<lparr>frontier = NewURLFrontier md, fetcher = NewFetcher d, parser = None,
      indexer = NewIndexer, workers = n\<rparr>"

definition wrap64 :: "int \<Rightarrow> int" where
  "wrap64 x = (x + 2 ^ 63) mod 2 ^ 64 - 2 ^ 63"

text \<open>
  A worker goroutine is a state machine over the shared crawler and results channel. Its
  control state says which statement of \<open>worker\<close> it executes next:
  \<^item> \<open>Polling\<close>: the \<open>GetURL\<close> at the head of the loop (line 364);
  \<^item> \<open>Retrying\<close>: it has found the frontier empty and slept, the second \<open>GetURL\<close>
  (line 368) is next;
  \<^item> \<open>Fetching url depth\<close>: the call of \<open>Fetch\<close> and, on \<open>StatusFetched\<close>, of \<open>Parse\<close>
  (lines 375 to 380);
  \<^item> \<open>Extracting result links depth\<close>: the loop over the links not yet added (lines 383
  to 385), one \<open>AddURL\<close> per step;
  \<^item> \<open>Reporting result\<close>: the \<open>select\<close> that sends the result (lines 389 to 393);
  \<^item> \<open>Exited\<close>: the loop is left and \<open>wg.Done\<close> has run.

  Each step is atomic. Other goroutines run between the steps, also during the sleep of
  100 milliseconds that separates \<open>Polling\<close> from \<open>Retrying\<close>. \<open>now\<close> is the instant of
  the step. \<open>GetURL\<close> is one step: the depth it reads after the receive was written
  before the URL was sent and is never written again.
\<close>

datatype wstate =
  Polling
  | Retrying
  | Fetching string int
  | Extracting CrawlResult "string list" int
  | Reporting CrawlResult
  | Exited

fun worker_step ::
  "world \<Rightarrow> int \<Rightarrow> wstate \<Rightarrow> Crawler \<Rightarrow> CrawlResult chan \<Rightarrow> wstate \<times> Crawler \<times> CrawlResult chan"
where
  "worker_step w now Polling c rs =
     (case GetURL (frontier c) of
        ((u, d, ok), uf) \<Rightarrow>
          if \<not> ok then (Retrying, c\<lparr>frontier := uf\<rparr>, rs)
          else (Fetching u d, c\<lparr>frontier := uf\<rparr>, rs))"
| "worker_step w now Retrying c rs =
     (case GetURL (frontier c) of
        ((u, d, stillOk), uf) \<Rightarrow>
          if \<not> stillOk then (Exited, c\<lparr>frontier := uf\<rparr>, rs)
          else (Polling, c\<lparr>frontier := uf\<rparr>, rs))"
| "worker_step w now (Fetching u d) c rs =
     (case Fetch w u now (fetcher c) of
        (result, f) \<Rightarrow>
          if Status result = StatusFetched
          then (let links = Parse w (Content result) u
                in (Extracting (result\<lparr>Links := links\<rparr>) links d, c\<lparr>fetcher := f\<rparr>, rs))
          else (Reporting result, c\<lparr>fetcher := f\<rparr>, rs))"
| "worker_step w now (Extracting result [] d) c rs =
     (Reporting result, c, rs)"
| "worker_step w now (Extracting result (link # rest) d) c rs =
     (Extracting result rest d,
      c\<lparr>frontier := AddURL w link (wrap64 (d + 1)) (frontier c)\<rparr>, rs)"
| "worker_step w now (Reporting result) c rs =
     (Polling, c, (case select_send result rs of Some rs1 \<Rightarrow> rs1 | None \<Rightarrow> rs))"
| "worker_step w now Exited c rs = (Exited, c, rs)"

text \<open>
  \<open>processResults\<close> receives one result and indexes it; when the channel is empty it
  waits, which is a step that changes nothing.
\<close>

definition processResults_step :: "Crawler \<Rightarrow> CrawlResult chan \<Rightarrow> Crawler \<times> CrawlResult chan" where
  "processResults_step c rs =
     (case select_recv rs of
        None \<Rightarrow> (c, rs)
      | Some (result, rs1) \<Rightarrow> (c\<lparr>indexer := Index result (indexer c)\<rparr>, rs1))"

text \<open>
  The goroutines that \<open>Crawl\<close> starts, and a schedule. A tick \<open>Worker k now\<close> lets one
  worker that has not exited take its next step at instant \<open>now\<close>: the one at position
  \<open>k mod n\<close> among the \<open>n\<close> such workers. A tick \<open>Sink\<close> lets \<open>processResults\<close> take a
  step. The instants of a schedule are not restricted.
\<close>

record engine =
  crawler :: Crawler
  results :: "CrawlResult chan"
  pool :: "wstate list"

datatype tick = Worker nat int | Sink

definition running :: "wstate list \<Rightarrow> nat list" where
  "running p = filter (\<lambda>i. p ! i \<noteq> Exited) [0..<length p]"

fun step :: "world \<Rightarrow> tick \<Rightarrow> engine \<Rightarrow> engine" where
  "step w (Worker k now) e =
     (let r = running (pool e)
      in if r = [] then e
         else (let i = r ! (k mod length r)
               in case worker_step w now (pool e ! i) (crawler e) (results e) of
                    (ws, c, rs) \<Rightarrow> e\<lparr>crawler := c, results := rs, pool := (pool e)[i := ws]\<rparr>))"
| "step w Sink e =
     (case processResults_step (crawler e) (results e) of
        (c, rs) \<Rightarrow> e\<lparr>crawler := c, results := rs\<rparr>)"

text \<open>
  \<open>wg.Wait()\<close> returns once every worker has exited; \<open>None\<close> says that the schedule ended
  before that.
\<close>

fun run :: "world \<Rightarrow> tick list \<Rightarrow> engine \<Rightarrow> engine option" where
  "run w [] e = (if running (pool e) = [] then Some e else None)"
| "run w (t # ts) e = (if running (pool e) = [] then Some e else run w ts (step w t e))"

text \<open>
  \<open>Crawl\<close> under a schedule: \<open>Some (Inl err)\<close> when it returns the error \<open>err\<close>,
  \<open>Some (Inr e)\<close> when it returns nil and leaves the engine in state \<open>e\<close>, \<open>None\<close> when
  \<open>wg.Wait()\<close> has not returned by the end of the schedule.
\<close>

definition Crawl :: "world \<Rightarrow> tick list \<Rightarrow> string \<Rightarrow> Crawler \<Rightarrow> (error + engine) option" where
  "Crawl w schedule startURL c =
     (case NewParser w startURL of
        Inl err \<Rightarrow> Some (Inl err)
      | Inr p \<Rightarrow>
          (let c1 = c\<lparr>parser := Some p\<rparr>;
               c2 = c1\<lparr>frontier := AddURL w startURL 0 (frontier c1)\<rparr>;
               e = \<lparr>crawler = c2, results = make_chan 100,
                    pool = replicate (nat (workers c2)) Polling\<rparr>
           in case run w schedule e of
                None \<Rightarrow> None
              | Some e' \<Rightarrow> Some (Inr e')))"

subsection \<open>Results in flight and progress of the pool\<close>

text \<open>
  What the data model asks of a result: its status is one of the three terminal ones, a
  redirect target is present only on a redirect, links are present only on a fetched page.
\<close>

definition terminal_result :: "CrawlResult \<Rightarrow> bool" where
  "terminal_result r =
     (Status r \<noteq> StatusPending
      \<and> (RedirectURL r \<noteq> [] \<longrightarrow> Status r = StatusRedirect)
      \<and> (Links r \<noteq> [] \<longrightarrow> Status r = StatusFetched))"

text \<open>
  The results that exist in an engine: those a worker holds between \<open>Fetch\<close> and the
  send, those in the results channel and those the indexer has written.
\<close>

fun held :: "wstate \<Rightarrow> CrawlResult list" where
  "held (Extracting result links d) = [result]"
| "held (Reporting result) = [result]"
| "held ws = []"

definition engine_results :: "engine \<Rightarrow> CrawlResult list" where
  "engine_results e =
     concat (map held (pool e)) @ buf (results e) @ out (indexer (crawler e))"

text \<open>The number of ticks of a schedule that run a worker.\<close>

fun worker_ticks :: "tick list \<Rightarrow> nat" where
  "worker_ticks [] = 0"
| "worker_ticks (Worker k now # ts) = Suc (worker_ticks ts)"
| "worker_ticks (Sink # ts) = worker_ticks ts"

text \<open>
  A bound on the worker steps that remain when no fetch yields links: every such step of
  a worker that has not exited lowers \<open>remaining\<close>.
\<close>

fun rank :: "wstate \<Rightarrow> nat" where
  "rank Exited = 0"
| "rank Retrying = 1"
| "rank Polling = 2"
| "rank (Reporting result) = 3"
| "rank (Fetching u d) = 4"
| "rank (Extracting result links d) = 4 + 4 * length links"

definition remaining :: "engine \<Rightarrow> nat" where
  "remaining e = sum_list (map rank (pool e)) + 3 * length (buf (urls (frontier (crawler e))))"

subsection \<open>Sequences of frontier operations\<close>

text \<open>
  The calls that a frontier receives during its lifetime, in the order in which they take
  effect: \<open>Add rawURL d\<close> is \<open>AddURL(rawURL, d)\<close>, \<open>Get\<close> is \<open>GetURL()\<close>.
\<close>

datatype frontier_op = Add string int | Get

fun apply_op :: "world \<Rightarrow> frontier_op \<Rightarrow> URLFrontier \<Rightarrow> URLFrontier" where
  "apply_op w (Add rawURL d) uf = AddURL w rawURL d uf"
| "apply_op w Get uf = snd (GetURL uf)"


text \<open>
  An operation enqueues \<open>n\<close> when it is an \<open>AddURL\<close> after which the buffer of pending
  URLs is the old buffer with \<open>n\<close> appended; \<open>enqueue_count\<close> counts these operations
  along a sequence.
\<close>

fun enqueues :: "world \<Rightarrow> string \<Rightarrow> frontier_op \<Rightarrow> URLFrontier \<Rightarrow> bool" where
  "enqueues w n (Add rawURL d) uf =
     (buf (urls (AddURL w rawURL d uf)) = buf (urls uf) @ [n])"
| "enqueues w n Get uf = False"

fun enqueue_count :: "world \<Rightarrow> string \<Rightarrow> frontier_op list \<Rightarrow> URLFrontier \<Rightarrow> nat" where
  "enqueue_count w n [] uf = 0"
| "enqueue_count w n (opn # ops) uf =
     (if enqueues w n opn uf then 1 else 0) + enqueue_count w n ops (apply_op w opn uf)"

subsection \<open>Test worlds\<close>

text \<open>
  Small worlds for evaluating the definitions on concrete inputs. \<open>test_parse\<close> rejects a
  string that contains a line feed (\<open>url.Parse\<close> rejects control characters), reads the
  host of an \<open>http://\<close> URL up to the first slash, and gives every accepted string back
  unchanged as its normalized form. In \<open>test_world\<close> the host \<open>a.test\<close> serves a root page
  with two links, two pages without links, a page whose body cannot be read to its end and
  a page that answers 300 with a \<open>Location\<close> header; nothing else can be reached. In
  \<open>down_world\<close> no host can be reached.
\<close>

definition test_parse :: "string \<Rightarrow> error + url" where
  "test_parse s =
     (if CHR 0x0A \<in> set s then Inl (Err ''invalid control character in URL'')
      else if take 7 s = ''http://''
      then Inr \<lparr>url_Scheme = ''http'',
                url_Hostname = takeWhile (\<lambda>c. c \<noteq> CHR ''/'') (drop 7 s),
                url_String = s\<rparr>
      else Inr \<lparr>url_Scheme = [], url_Hostname = [], url_String = s\<rparr>)"

definition test_page :: string where
  "test_page = ''<a href=/1>one</a><a href=/2>two</a>''"

definition test_world :: world where
  "test_world =
     \<lparr>url_Parse = test_parse,
      url_Resolve = (\<lambda>base ref. test_parse (''http://'' @ url_Hostname base @ ref)),
      http_NewRequest = (\<lambda>u. None),
      client_Do = (\<lambda>agent u.
         if u = ''http://a.test/''
         then Inr \<lparr>resp_StatusCode = 200, resp_Location = [], resp_Body = Inr test_page\<rparr>
         else if u = ''http://a.test/1'' \<or> u = ''http://a.test/2''
         then Inr \<lparr>resp_StatusCode = 200, resp_Location = [], resp_Body = Inr []\<rparr>
         else if u = ''http://a.test/cut''
         then Inr \<lparr>resp_StatusCode = 200, resp_Location = [],
                   resp_Body = Inl (Err ''unexpected EOF'')\<rparr>
         else if u = ''http://a.test/choices''
         then Inr \<lparr>resp_StatusCode = 300, resp_Location = ''http://a.test/1'',
                   resp_Body = Inr ''choose''\<rparr>
         else Inl (Err ''no such host'')),
      html_Parse = (\<lambda>content.
         if content = test_page
         then Inr (Node False [] []
                     [Node True ''a'' [(''href'', ''/1'')] [Node False ''one'' [] []],
                      Node True ''a'' [(''href'', ''/2'')] [Node False ''two'' [] []]])
         else Inr (Node False [] [] []))\<rparr>"

definition down_world :: world where
  "down_world = test_world\<lparr>client_Do := (\<lambda>agent u. Inl (Err ''no route to host''))\<rparr>"

text \<open>
  \<open>NewFetcher\<close> builds its client as \<open>&http.Client{Timeout: 30 * time.Second}\<close> (lines
  115 to 117), without a \<open>CheckRedirect\<close>. With such a client the \<open>client.Do\<close> of the Go
  library follows redirects itself: a response with status 301, 302, 303, 307 or 308 and
  a non-empty \<open>Location\<close> header is answered by a new GET request to the location,
  resolved against the URL of the request, and the tenth such response in a row is an
  error. \<open>follow_redirects w roundTrip agent n u\<close> is this policy over \<open>roundTrip\<close>, the
  answer of the network to one request, with \<open>n\<close> further requests allowed; a call of
  \<open>client.Do\<close> starts it with 9.

  In \<open>redirect_world\<close> the server answers 301 with a \<open>Location\<close> header for
  \<open>http://a.test/old\<close> and 200 for the location, and \<open>client.Do\<close> applies the policy to
  this server.
\<close>

fun follow_redirects ::
  "world \<Rightarrow> (string \<Rightarrow> string \<Rightarrow> error + response) \<Rightarrow> string \<Rightarrow> nat \<Rightarrow> string
   \<Rightarrow> error + response"
where
  "follow_redirects w roundTrip agent n u =
     (case roundTrip agent u of
        Inl err \<Rightarrow> Inl err
      | Inr resp \<Rightarrow>
          if (resp_StatusCode resp = 301 \<or> resp_StatusCode resp = 302
              \<or> resp_StatusCode resp = 303 \<or> resp_StatusCode resp = 307
              \<or> resp_StatusCode resp = 308)
             \<and> resp_Location resp \<noteq> []
          then (case url_Parse w u of
                  Inl err \<Rightarrow> Inl err
                | Inr reqURL \<Rightarrow>
                    (case url_Resolve w reqURL (resp_Location resp) of
                       Inl err \<Rightarrow> Inl err
                     | Inr next \<Rightarrow>
                         (case n of
                            0 \<Rightarrow> Inl (Err ''stopped after 10 redirects'')
                          | Suc m \<Rightarrow> follow_redirects w roundTrip agent m (url_String next))))
          else Inr resp)"

definition redirect_server :: "string \<Rightarrow> string \<Rightarrow> error + response" where
  "redirect_server agent u =
     (if u = ''http://a.test/old''
      then Inr \<lparr>resp_StatusCode = 301, resp_Location = ''/new'', resp_Body = Inr ''moved''\<rparr>
      else if u = ''http://a.test/new''
      then Inr \<lparr>resp_StatusCode = 200, resp_Location = [], resp_Body = Inr ''new page''\<rparr>
      else Inl (Err ''no such host''))"

definition redirect_world :: world where
  "redirect_world =
     test_world\<lparr>client_Do := (\<lambda>agent u. follow_redirects test_world redirect_server agent 9 u)\<rparr>"

text \<open>
  A schedule for the three workers that \<open>main\<close> configures, with its instants in
  nanoseconds. Worker 0 takes the seed; workers 1 and 2 find the frontier empty and sleep;
  worker 0 fetches the seed within 50 milliseconds, adds its links and reports; after
  their 100 milliseconds workers 1 and 2 poll again; then every worker polls until it
  exits.
\<close>

definition retry_schedule :: "tick list" where
  "retry_schedule =
     [Worker 0 0, Worker 1 0, Worker 2 0, Worker 0 0,
      Worker 0 50000000, Worker 0 50000000, Worker 0 50000000, Worker 0 50000000,
      Worker 1 100000000, Worker 2 100000000,
      Worker 0 100000000, Worker 1 100000000, Worker 2 100000000,
      Worker 0 200000000, Worker 0 200000000, Worker 0 200000000]"

section \<open>Properties of the frontier\<close>

lemma is_visited_AddURL_mono: "is_visited uf n \<Longrightarrow> is_visited (AddURL w rawURL d uf) n"
  by (auto simp: AddURL_def Let_def is_visited_def select_send_def split: sum.splits option.splits)

lemma AddURL_visited_noop:
  "normalized w rawURL = Some n \<Longrightarrow> is_visited uf n \<Longrightarrow> AddURL w rawURL d uf = uf"
  by (auto simp: AddURL_def Let_def normalized_def split: sum.splits)

lemma AddURL_accepted:
  "normalized w rawURL = Some n \<Longrightarrow> \<not> is_visited uf n \<Longrightarrow> d < maxDepth uf \<Longrightarrow>
   AddURL w rawURL d uf =
     uf\<lparr>visited := (visited uf)(n \<mapsto> True), depth := (depth uf)(n \<mapsto> d),
        urls := (if length (buf (urls uf)) < cap (urls uf)
                 then (urls uf)\<lparr>buf := buf (urls uf) @ [n]\<rparr> else urls uf)\<rparr>"
  by (auto simp: AddURL_def Let_def normalized_def select_send_def split: sum.splits)

lemma AddURL_rejected_depth: "maxDepth uf \<le> d \<Longrightarrow> AddURL w rawURL d uf = uf"
  by (simp add: AddURL_def Let_def split: sum.splits)

lemma is_visited_GetURL: "is_visited (snd (GetURL uf)) n = is_visited uf n"
  by (simp add: GetURL_def is_visited_def select_recv_def split: list.splits)

lemma is_visited_apply_op: "is_visited uf n \<Longrightarrow> is_visited (apply_op w opn uf) n"
  by (cases opn) (simp_all add: is_visited_AddURL_mono is_visited_GetURL)

lemma is_visited_ops: "is_visited uf n \<Longrightarrow> is_visited (fold (apply_op w) ops uf) n"
  by (induction ops arbitrary: uf) (simp_all add: is_visited_apply_op)

lemma enqueues_marks:
  "enqueues w n opn uf \<Longrightarrow> \<not> is_visited uf n \<and> is_visited (apply_op w opn uf) n"
  by (cases opn)
     (auto simp: AddURL_def Let_def is_visited_def select_send_def split: sum.splits if_splits)

lemma enqueue_count_visited: "is_visited uf n \<Longrightarrow> enqueue_count w n ops uf = 0"
proof (induction ops arbitrary: uf)
  case Nil
  show ?case by simp
next
  case (Cons opn ops)
  from Cons.prems have "\<not> enqueues w n opn uf" using enqueues_marks by blast
  moreover from Cons.prems have "is_visited (apply_op w opn uf) n" by (rule is_visited_apply_op)
  ultimately show ?case using Cons.IH by simp
qed





text \<open>
  Claim C3. A call \<open>AddURL(u, d)\<close> with \<open>d \<ge> maxDepth\<close> leaves the frontier as it was:
  the URL is not marked visited, no depth is recorded for it and what \<open>GetURL\<close> returns
  next is unchanged. The comparison rejects \<open>d = maxDepth\<close> already.
\<close>
theorem AddURL_depth_ceiling:
  "maxDepth uf \<le> d \<Longrightarrow> AddURL w rawURL d uf = uf \<and> GetURL (AddURL w rawURL d uf) = GetURL uf"
  by (simp add: AddURL_rejected_depth)

theorem AddURL_depth_ceiling_witness:
  "maxDepth (NewURLFrontier 2) \<le> 2
   \<and> AddURL test_world ''http://a.test/'' 2 (NewURLFrontier 2) = NewURLFrontier 2
   \<and> fst (GetURL (AddURL test_world ''http://a.test/'' 2 (NewURLFrontier 2))) = ([], 0, False)"
proof -
  have h: "maxDepth (NewURLFrontier 2) \<le> 2" by (simp add: NewURLFrontier_def)
  have g: "fst (GetURL (NewURLFrontier 2)) = ([], 0, False)"
    by (simp add: GetURL_def NewURLFrontier_def make_chan_def select_recv_def)
  show ?thesis using h g AddURL_depth_ceiling [OF h, of test_world "''http://a.test/''"] by simp
qed




text \<open>
  Claim C6. \<open>AddURL\<close> never waits for the queue. When the pending queue is filled to
  capacity, the send of a fresh URL is not ready, the \<open>default\<close> case of the \<open>select\<close>
  is taken, and \<open>AddURL\<close> returns the frontier with the URL marked visited, its depth
  recorded and the queue unchanged; it has no error result.
\<close>
theorem AddURL_full_queue_returns:
  assumes "cap (urls uf) \<le> length (buf (urls uf))"
    and "normalized w rawURL = Some n" and "\<not> is_visited uf n" and "d < maxDepth uf"
  shows "select_send n (urls uf) = None
         \<and> AddURL w rawURL d uf =
             uf\<lparr>visited := (visited uf)(n \<mapsto> True), depth := (depth uf)(n \<mapsto> d)\<rparr>"
  using assms
  by (auto simp: AddURL_def Let_def normalized_def select_send_def split: sum.splits)

theorem AddURL_full_queue_returns_witness:
  "cap (urls ((NewURLFrontier 2)\<lparr>urls := \<lparr>buf = replicate 1000 ''http://a.test/1'', cap = 1000\<rparr>\<rparr>))
     \<le> length (buf (urls ((NewURLFrontier 2)\<lparr>urls := \<lparr>buf = replicate 1000 ''http://a.test/1'', cap = 1000\<rparr>\<rparr>)))
   \<and> normalized test_world ''http://a.test/2'' = Some ''http://a.test/2''
   \<and> \<not> is_visited ((NewURLFrontier 2)\<lparr>urls := \<lparr>buf = replicate 1000 ''http://a.test/1'', cap = 1000\<rparr>\<rparr>) ''http://a.test/2''
   \<and> (0::int) < maxDepth ((NewURLFrontier 2)\<lparr>urls := \<lparr>buf = replicate 1000 ''http://a.test/1'', cap = 1000\<rparr>\<rparr>)
   \<and> buf (urls (AddURL test_world ''http://a.test/2'' 0
        ((NewURLFrontier 2)\<lparr>urls := \<lparr>buf = replicate 1000 ''http://a.test/1'', cap = 1000\<rparr>\<rparr>)))
      = replicate 1000 ''http://a.test/1''
   \<and> is_visited (AddURL test_world ''http://a.test/2'' 0
        ((NewURLFrontier 2)\<lparr>urls := \<lparr>buf = replicate 1000 ''http://a.test/1'', cap = 1000\<rparr>\<rparr>)) ''http://a.test/2''"
proof -
  let ?uf = "(NewURLFrontier 2)\<lparr>urls := \<lparr>buf = replicate 1000 ''http://a.test/1'', cap = 1000\<rparr>\<rparr>"
  have h1: "cap (urls ?uf) \<le> length (buf (urls ?uf))" by simp
  have h2: "normalized test_world ''http://a.test/2'' = Some ''http://a.test/2''"
    by (simp add: normalized_def test_world_def test_parse_def)
  have h3: "\<not> is_visited ?uf ''http://a.test/2''"
    by (simp add: is_visited_def NewURLFrontier_def)
  have h4: "(0::int) < maxDepth ?uf" by (simp add: NewURLFrontier_def)
  show ?thesis
    using h1 h2 h3 h4 AddURL_full_queue_returns [OF h1 h2 h3 h4]
    by (simp add: is_visited_def)
qed

text \<open>
  Claim C9. A fresh URL offered to a full queue is marked visited and has its depth
  recorded although it is not enqueued. After that, whatever operations follow (also
  \<open>GetURL\<close> calls that make room), every \<open>AddURL\<close> whose argument normalizes to the same
  URL changes nothing, and no operation enqueues that URL.
\<close>
theorem AddURL_dropped_forever:
  assumes "cap (urls uf) \<le> length (buf (urls uf))"
    and "normalized w rawURL = Some n" and "\<not> is_visited uf n" and "d < maxDepth uf"
    and "normalized w rawURL' = Some n"
  shows "urls (AddURL w rawURL d uf) = urls uf
         \<and> is_visited (AddURL w rawURL d uf) n
         \<and> depth (AddURL w rawURL d uf) n = Some d
         \<and> AddURL w rawURL' d' (fold (apply_op w) ops (AddURL w rawURL d uf))
             = fold (apply_op w) ops (AddURL w rawURL d uf)
         \<and> enqueue_count w n ops (AddURL w rawURL d uf) = 0"
proof -
  have acc: "AddURL w rawURL d uf =
     uf\<lparr>visited := (visited uf)(n \<mapsto> True), depth := (depth uf)(n \<mapsto> d),
        urls := (if length (buf (urls uf)) < cap (urls uf)
                 then (urls uf)\<lparr>buf := buf (urls uf) @ [n]\<rparr> else urls uf)\<rparr>"
    using assms(2,3,4) by (rule AddURL_accepted)
  have v: "is_visited (AddURL w rawURL d uf) n" by (simp add: acc is_visited_def)
  then have "is_visited (fold (apply_op w) ops (AddURL w rawURL d uf)) n"
    by (rule is_visited_ops)
  with assms(5) have noop: "AddURL w rawURL' d' (fold (apply_op w) ops (AddURL w rawURL d uf))
             = fold (apply_op w) ops (AddURL w rawURL d uf)"
    by (rule AddURL_visited_noop)
  have cnt: "enqueue_count w n ops (AddURL w rawURL d uf) = 0"
    using v by (rule enqueue_count_visited)
  from assms(1) have "urls (AddURL w rawURL d uf) = urls uf" by (simp add: acc)
  moreover have "depth (AddURL w rawURL d uf) n = Some d" by (simp add: acc)
  ultimately show ?thesis using v noop cnt by simp
qed

theorem AddURL_dropped_forever_witness:
  "cap (urls ((NewURLFrontier 2)\<lparr>urls := \<lparr>buf = replicate 1000 ''http://a.test/1'', cap = 1000\<rparr>\<rparr>))
     \<le> length (buf (urls ((NewURLFrontier 2)\<lparr>urls := \<lparr>buf = replicate 1000 ''http://a.test/1'', cap = 1000\<rparr>\<rparr>)))
   \<and> normalized test_world ''http://a.test/2'' = Some ''http://a.test/2''
   \<and> \<not> is_visited ((NewURLFrontier 2)\<lparr>urls := \<lparr>buf = replicate 1000 ''http://a.test/1'', cap = 1000\<rparr>\<rparr>) ''http://a.test/2''
   \<and> (0::int) < maxDepth ((NewURLFrontier 2)\<lparr>urls := \<lparr>buf = replicate 1000 ''http://a.test/1'', cap = 1000\<rparr>\<rparr>)
   \<and> AddURL test_world ''http://a.test/2'' 1
        (fold (apply_op test_world) [Get, Get]
           (AddURL test_world ''http://a.test/2'' 0
              ((NewURLFrontier 2)\<lparr>urls := \<lparr>buf = replicate 1000 ''http://a.test/1'', cap = 1000\<rparr>\<rparr>)))
      = fold (apply_op test_world) [Get, Get]
           (AddURL test_world ''http://a.test/2'' 0
              ((NewURLFrontier 2)\<lparr>urls := \<lparr>buf = replicate 1000 ''http://a.test/1'', cap = 1000\<rparr>\<rparr>))
   \<and> enqueue_count test_world ''http://a.test/2'' [Get, Get, Add ''http://a.test/2'' 1]
        (AddURL test_world ''http://a.test/2'' 0
           ((NewURLFrontier 2)\<lparr>urls := \<lparr>buf = replicate 1000 ''http://a.test/1'', cap = 1000\<rparr>\<rparr>)) = 0"
proof -
  let ?uf = "(NewURLFrontier 2)\<lparr>urls := \<lparr>buf = replicate 1000 ''http://a.test/1'', cap = 1000\<rparr>\<rparr>"
  have h1: "cap (urls ?uf) \<le> length (buf (urls ?uf))" by simp
  have h2: "normalized test_world ''http://a.test/2'' = Some ''http://a.test/2''"
    by (simp add: normalized_def test_world_def test_parse_def)
  have h3: "\<not> is_visited ?uf ''http://a.test/2''"
    by (simp add: is_visited_def NewURLFrontier_def)
  have h4: "(0::int) < maxDepth ?uf" by (simp add: NewURLFrontier_def)
  show ?thesis
    using h1 h2 h3 h4
      AddURL_dropped_forever [OF h1 h2 h3 h4 h2, of 1 "[Get, Get]"]
      AddURL_dropped_forever [OF h1 h2 h3 h4 h2, of 1 "[Get, Get, Add ''http://a.test/2'' 1]"]
    by simp
qed

text \<open>
  Claim C10. \<open>AddURL\<close> discards its argument as malformed only when \<open>url.Parse\<close>
  returns an error. In a world where \<open>url.Parse\<close> accepts the empty string and renders
  it as the empty string (as Go's \<open>net/url\<close> does), \<open>AddURL("", 0)\<close> on a frontier with
  \<open>maxDepth > 0\<close>, room in the queue and the empty string not visited marks the empty
  string visited and enqueues it, and \<open>GetURL\<close> hands it to a worker.
\<close>
theorem AddURL_accepts_empty_string:
  assumes "url_Parse w [] = Inr p" and "url_String p = []"
    and "\<not> is_visited uf []" and "0 < maxDepth uf"
    and "length (buf (urls uf)) < cap (urls uf)"
  shows "AddURL w [] 0 uf \<noteq> uf
         \<and> is_visited (AddURL w [] 0 uf) []
         \<and> buf (urls (AddURL w [] 0 uf)) = buf (urls uf) @ [[]]
         \<and> (buf (urls uf) = [] \<longrightarrow> fst (GetURL (AddURL w [] 0 uf)) = ([], 0, True))"
proof -
  from assms(1,2) have n: "normalized w [] = Some []" by (simp add: normalized_def)
  note acc = AddURL_accepted [OF n assms(3,4)]
  have v: "is_visited (AddURL w [] 0 uf) []" by (simp add: acc is_visited_def)
  with assms(3) have "AddURL w [] 0 uf \<noteq> uf" by auto
  moreover have "buf (urls (AddURL w [] 0 uf)) = buf (urls uf) @ [[]]"
    using assms(5) by (simp add: acc)
  moreover have "buf (urls uf) = [] \<longrightarrow> fst (GetURL (AddURL w [] 0 uf)) = ([], 0, True)"
    using assms(5) by (simp add: acc GetURL_def select_recv_def depth_of_def)
  ultimately show ?thesis using v by simp
qed

theorem AddURL_accepts_empty_string_witness:
  "url_Parse test_world [] = Inr \<lparr>url_Scheme = [], url_Hostname = [], url_String = []\<rparr>
   \<and> \<not> is_visited (NewURLFrontier 2) []
   \<and> 0 < maxDepth (NewURLFrontier 2)
   \<and> length (buf (urls (NewURLFrontier 2))) < cap (urls (NewURLFrontier 2))
   \<and> is_visited (AddURL test_world [] 0 (NewURLFrontier 2)) []
   \<and> buf (urls (AddURL test_world [] 0 (NewURLFrontier 2))) = [[]]
   \<and> fst (GetURL (AddURL test_world [] 0 (NewURLFrontier 2))) = ([], 0, True)"
proof -
  have h1: "url_Parse test_world [] = Inr \<lparr>url_Scheme = [], url_Hostname = [], url_String = []\<rparr>"
    by (simp add: test_world_def test_parse_def)
  have h2: "url_String \<lparr>url_Scheme = [], url_Hostname = [], url_String = []\<rparr> = []" by simp
  have h3: "\<not> is_visited (NewURLFrontier 2) []" by (simp add: is_visited_def NewURLFrontier_def)
  have h4: "0 < maxDepth (NewURLFrontier 2)" by (simp add: NewURLFrontier_def)
  have h5: "length (buf (urls (NewURLFrontier 2))) < cap (urls (NewURLFrontier 2))"
    by (simp add: NewURLFrontier_def make_chan_def)
  have e: "buf (urls (NewURLFrontier 2)) = []" by (simp add: NewURLFrontier_def make_chan_def)
  show ?thesis
    using h1 h3 h4 h5 e AddURL_accepts_empty_string [OF h1 h2 h3 h4 h5]
    by simp
qed

section \<open>Properties of the fetcher\<close>

lemma userAgent_rate_limit: "userAgent (Fetch_rate_limit h now f) = userAgent f"
  by (simp add: Fetch_rate_limit_def Let_def)

text \<open>
  What \<open>Fetch\<close> makes of the response that \<open>client.Do\<close> hands back: a status code in
  [300,400) gives \<open>StatusRedirect\<close> with the \<open>Location\<close> header as redirect target and
  empty content; any other status code gives \<open>StatusFetched\<close> with the full body when
  the body is read without error, and \<open>StatusError\<close> with the read error when it is not.
  The status code is recorded in every case and no links are set.
\<close>

lemma Fetch_classification:
  assumes "url_Parse w rawURL = Inr parsedURL" and "http_NewRequest w rawURL = None"
    and "client_Do w (userAgent f) rawURL = Inr resp"
  shows "fst (Fetch w rawURL now f) =
           (if 300 \<le> resp_StatusCode resp \<and> resp_StatusCode resp < 400
            then \<lparr>URL = rawURL, Status = StatusRedirect, Content = [], Links = [], Error = None,
                  StatusCode = resp_StatusCode resp, RedirectURL = resp_Location resp\<rparr>
            else (case resp_Body resp of
                    Inr body \<Rightarrow>
                      \<lparr>URL = rawURL, Status = StatusFetched, Content = body, Links = [],
                       Error = None, StatusCode = resp_StatusCode resp, RedirectURL = []\<rparr>
                  | Inl err \<Rightarrow>
                      \<lparr>URL = rawURL, Status = StatusError, Content = [], Links = [],
                       Error = Some err, StatusCode = resp_StatusCode resp, RedirectURL = []\<rparr>))"
  using assms by (simp add: Fetch_def Let_def userAgent_rate_limit split: sum.splits)

text \<open>
  Claim C5. A response with a status code in [300,400) is not always classified as a
  redirect, because most of them never reach the test on line 173: the client follows
  them. For a server that answers 301 with a \<open>Location\<close> header, \<open>Fetch\<close> returns the
  page at the location with \<open>StatusFetched\<close>, status code 200, and an empty redirect
  target.
\<close>

theorem Fetch_follows_redirect:
  "redirect_server (userAgent (NewFetcher 0)) ''http://a.test/old''
     = Inr \<lparr>resp_StatusCode = 301, resp_Location = ''/new'', resp_Body = Inr ''moved''\<rparr>
   \<and> fst (Fetch redirect_world ''http://a.test/old'' 0 (NewFetcher 0))
     = \<lparr>URL = ''http://a.test/old'', Status = StatusFetched, Content = ''new page'', Links = [],
        Error = None, StatusCode = 200, RedirectURL = []\<rparr>"
  by (simp add: Fetch_def Let_def redirect_world_def redirect_server_def test_world_def
        test_parse_def NewFetcher_def)

text \<open>
  The rate limiter keeps two requests to one host apart: the instant it records for a
  host is at least \<open>delay\<close> after the instant recorded before, and it leaves the
  instants of the other hosts alone.
\<close>

lemma Fetch_rate_limit_same_host:
  "rateLimiter f h = Some lastRequest \<Longrightarrow>
   \<exists>t. rateLimiter (Fetch_rate_limit h now f) h = Some t \<and> lastRequest + delay f \<le> t"
  by (simp add: Fetch_rate_limit_def Let_def)

lemma Fetch_rate_limit_other_host:
  "h' \<noteq> h \<Longrightarrow> rateLimiter (Fetch_rate_limit h now f) h' = rateLimiter f h'"
  by (simp add: Fetch_rate_limit_def Let_def)

text \<open>
  Claim C4. The pacing is not independent between hosts, because \<open>time.Sleep\<close> runs
  while \<open>f.mu\<close> is held and every \<open>Fetch\<close> has to take \<open>f.mu\<close>. With a delay of one
  second: a first request to \<open>a.test\<close> at instant 0; a second request to \<open>a.test\<close>
  reaches the lock at 100 milliseconds and sleeps, holding it, until one second; a request
  to \<open>b.test\<close>, a host never contacted before, reaches the lock at 200 milliseconds on
  another worker and is released only at one second. Without the second request to
  \<open>a.test\<close> it is released at 200 milliseconds.
\<close>

theorem Fetch_other_host_delayed:
  "rateLimiter (snd (Fetch test_world ''http://b.test/'' 200000000
      (snd (Fetch test_world ''http://a.test/2'' 100000000
         (snd (Fetch test_world ''http://a.test/1'' 0 (NewFetcher 1000000000))))))) ''b.test''
     = Some 1000000000
   \<and> rateLimiter (snd (Fetch test_world ''http://b.test/'' 200000000
        (snd (Fetch test_world ''http://a.test/1'' 0 (NewFetcher 1000000000))))) ''b.test''
     = Some 200000000"
  by (simp add: Fetch_def Let_def Fetch_rate_limit_def NewFetcher_def test_world_def test_parse_def)

section \<open>Properties of the engine\<close>

lemma Fetch_terminal:
  "Status (fst (Fetch w u now f)) \<noteq> StatusPending
   \<and> (RedirectURL (fst (Fetch w u now f)) \<noteq> [] \<longrightarrow> Status (fst (Fetch w u now f)) = StatusRedirect)
   \<and> Links (fst (Fetch w u now f)) = []"
  by (simp add: Fetch_def Let_def split: sum.splits option.splits)

lemma worker_step_results:
  assumes "worker_step w now ws c rs = (ws', c', rs')"
    and "list_all terminal_result (held ws)" and "list_all terminal_result (buf rs)"
  shows "list_all terminal_result (held ws') \<and> list_all terminal_result (buf rs')
         \<and> indexer c' = indexer c"
proof (cases ws)
  case Polling
  with assms show ?thesis by (auto split: prod.splits if_splits)
next
  case Retrying
  with assms show ?thesis by (auto split: prod.splits if_splits)
next
  case (Fetching u d)
  obtain result f where F: "Fetch w u now (fetcher c) = (result, f)" by (cases "Fetch w u now (fetcher c)")
  from Fetch_terminal [of w u now "fetcher c"] F
  have t: "Status result \<noteq> StatusPending"
    "RedirectURL result \<noteq> [] \<longrightarrow> Status result = StatusRedirect" "Links result = []"
    by simp_all
  show ?thesis
  proof (cases "Status result = StatusFetched")
    case True
    with assms Fetching F t show ?thesis by (auto simp: terminal_result_def Let_def)
  next
    case False
    with assms Fetching F t show ?thesis by (auto simp: terminal_result_def)
  qed
next
  case (Extracting result links d)
  with assms show ?thesis by (cases links) auto
next
  case (Reporting result)
  with assms show ?thesis by (auto simp: select_send_def split: if_splits)
next
  case Exited
  with assms show ?thesis by auto
qed

lemma running_nth:
  assumes "running p \<noteq> []"
  shows "running p ! (k mod length (running p)) < length p
         \<and> p ! (running p ! (k mod length (running p))) \<noteq> Exited"
proof -
  have "k mod length (running p) < length (running p)" using assms by simp
  then have "running p ! (k mod length (running p)) \<in> set (running p)" by (rule nth_mem)
  then show ?thesis by (simp add: running_def)
qed

lemma list_all_held_update:
  assumes "list_all P (concat (map held p))" and "list_all P (held ws)"
  shows "list_all P (concat (map held (p[i := ws])))"
proof -
  have "set (p[i := ws]) \<subseteq> insert ws (set p)" by (rule set_update_subset_insert)
  with assms show ?thesis by (auto simp: list_all_iff)
qed

lemma list_all_held_nth:
  "list_all P (concat (map held p)) \<Longrightarrow> i < length p \<Longrightarrow> list_all P (held (p ! i))"
  by (auto simp: list_all_iff)

lemma step_results:
  assumes "list_all terminal_result (engine_results e)"
  shows "list_all terminal_result (engine_results (step w t e))"
proof (cases t)
  case (Worker k now)
  show ?thesis
  proof (cases "running (pool e) = []")
    case True
    with Worker assms show ?thesis by simp
  next
    case False
    define i where "i = running (pool e) ! (k mod length (running (pool e)))"
    from running_nth [OF False, of k] have i: "i < length (pool e)" by (simp add: i_def)
    obtain ws' c' rs' where ws: "worker_step w now (pool e ! i) (crawler e) (results e) = (ws', c', rs')"
      by (cases "worker_step w now (pool e ! i) (crawler e) (results e)")
    from assms have a: "list_all terminal_result (concat (map held (pool e)))"
      "list_all terminal_result (buf (results e))"
      "list_all terminal_result (out (indexer (crawler e)))"
      by (simp_all add: engine_results_def)
    from a(1) i have "list_all terminal_result (held (pool e ! i))" by (rule list_all_held_nth)
    from worker_step_results [OF ws this a(2)]
    have r: "list_all terminal_result (held ws')" "list_all terminal_result (buf rs')"
      "indexer c' = indexer (crawler e)" by simp_all
    from a(1) r(1) have "list_all terminal_result (concat (map held ((pool e)[i := ws'])))"
      by (rule list_all_held_update)
    moreover have "step w t e = e\<lparr>crawler := c', results := rs', pool := (pool e)[i := ws']\<rparr>"
      using Worker False ws by (simp add: Let_def i_def)
    ultimately show ?thesis using r a(3) by (simp add: engine_results_def)
  qed
next
  case Sink
  with assms show ?thesis
    by (auto simp: engine_results_def processResults_step_def select_recv_def Index_def
          split: list.splits URLStatus.splits)
qed

lemma run_results:
  "run w ticks e = Some e' \<Longrightarrow> list_all terminal_result (engine_results e) \<Longrightarrow>
   list_all terminal_result (engine_results e')"
proof (induction ticks arbitrary: e)
  case Nil
  then show ?case by (simp split: if_splits)
next
  case (Cons t ts)
  show ?case
  proof (cases "running (pool e) = []")
    case True
    with Cons.prems show ?thesis by simp
  next
    case False
    with Cons.prems have "run w ts (step w t e) = Some e'" by simp
    moreover have "list_all terminal_result (engine_results (step w t e))"
      using Cons.prems(2) by (rule step_results)
    ultimately show ?thesis by (rule Cons.IH)
  qed
qed

lemma concat_held_replicate_Polling: "concat (map held (replicate n Polling)) = []"
  by (induction n) simp_all

text \<open>
  Claim C8. Every result that \<open>Fetch\<close> returns has a terminal status, carries a
  redirect target only when its status is \<open>StatusRedirect\<close>, and has no links. Links
  are attached by the worker, and only to results with \<open>StatusFetched\<close>: when \<open>Crawl\<close>
  returns nil, every result held by a worker, waiting in the results channel or written
  by the indexer is terminal in this sense, provided those the indexer had written before
  were.
\<close>

theorem results_terminal:
  "Status (fst (Fetch w u now f)) \<noteq> StatusPending
   \<and> (RedirectURL (fst (Fetch w u now f)) \<noteq> [] \<longrightarrow> Status (fst (Fetch w u now f)) = StatusRedirect)
   \<and> Links (fst (Fetch w u now f)) = []
   \<and> (Crawl w schedule startURL c = Some (Inr e) \<longrightarrow> list_all terminal_result (out (indexer c))
        \<longrightarrow> list_all terminal_result (engine_results e))"
proof -
  have "list_all terminal_result (engine_results e)"
    if C: "Crawl w schedule startURL c = Some (Inr e)" and o: "list_all terminal_result (out (indexer c))"
  proof -
    from C obtain p where p: "NewParser w startURL = Inr p"
      by (cases "NewParser w startURL") (simp_all add: Crawl_def)
    define e0 where "e0 = \<lparr>crawler = c\<lparr>parser := Some p, frontier := AddURL w startURL 0 (frontier c)\<rparr>,
         results = make_chan 100, pool = replicate (nat (workers c)) Polling\<rparr>"
    from C p have "run w schedule e0 = Some e"
      by (simp add: Crawl_def Let_def e0_def split: option.splits)
    moreover have "list_all terminal_result (engine_results e0)"
      using o by (simp add: engine_results_def e0_def make_chan_def concat_held_replicate_Polling)
    ultimately show ?thesis by (rule run_results)
  qed
  with Fetch_terminal [of w u now f] show ?thesis by blast
qed


theorem results_terminal_witness:
  "list_all terminal_result (out (indexer (NewCrawler 2 3 1000000000)))
   \<and> (\<exists>e. Crawl test_world retry_schedule ''http://a.test/'' (NewCrawler 2 3 1000000000) = Some (Inr e)
          \<and> list_all terminal_result (engine_results e))
   \<and> Status (fst (Fetch test_world ''http://a.test/choices'' 0 (NewFetcher 0))) \<noteq> StatusPending
   \<and> RedirectURL (fst (Fetch test_world ''http://a.test/choices'' 0 (NewFetcher 0))) \<noteq> []
   \<and> Status (fst (Fetch test_world ''http://a.test/choices'' 0 (NewFetcher 0))) = StatusRedirect
   \<and> Links (fst (Fetch test_world ''http://a.test/choices'' 0 (NewFetcher 0))) = []"
proof -
  have "case Crawl test_world retry_schedule ''http://a.test/'' (NewCrawler 2 3 1000000000) of
          Some (Inr e) \<Rightarrow> True | _ \<Rightarrow> False"
    by code_simp
  then obtain e where
    e: "Crawl test_world retry_schedule ''http://a.test/'' (NewCrawler 2 3 1000000000) = Some (Inr e)"
    by (auto split: option.splits sum.splits)
  have o: "list_all terminal_result (out (indexer (NewCrawler 2 3 1000000000)))"
    by (simp add: NewCrawler_def NewIndexer_def)
  have r: "RedirectURL (fst (Fetch test_world ''http://a.test/choices'' 0 (NewFetcher 0))) \<noteq> []"
    by (simp add: Fetch_def Let_def test_world_def test_parse_def NewFetcher_def)
  from results_terminal [of test_world "''http://a.test/choices''" 0 "NewFetcher 0"
      retry_schedule "''http://a.test/''" "NewCrawler 2 3 1000000000" e] e o r
  show ?thesis by blast
qed

lemma worker_step_progress:
  assumes "worker_step w now ws c rs = (ws', c', rs')" and "ws \<noteq> Exited"
    and "\<forall>u now f. Status (fst (Fetch w u now f)) = StatusError"
  shows "rank ws' + 3 * length (buf (urls (frontier c')))
           < rank ws + 3 * length (buf (urls (frontier c)))"
proof (cases ws)
  case Polling
  with assms(1) show ?thesis
    by (auto simp: GetURL_def select_recv_def split: list.splits)
next
  case Retrying
  with assms(1) show ?thesis
    by (auto simp: GetURL_def select_recv_def split: list.splits)
next
  case (Fetching u d)
  from assms(3) have "Status (fst (Fetch w u now (fetcher c))) = StatusError" by blast
  with assms(1) Fetching show ?thesis by (auto split: prod.splits)
next
  case (Extracting result links d)
  show ?thesis
  proof (cases links)
    case Nil
    with assms(1) Extracting show ?thesis by auto
  next
    case (Cons link rest)
    have "length (buf (urls (AddURL w link (wrap64 (d + 1)) (frontier c))))
            \<le> Suc (length (buf (urls (frontier c))))"
      by (auto simp: AddURL_def Let_def select_send_def split: sum.splits)
    with assms(1) Extracting Cons show ?thesis by auto
  qed
next
  case (Reporting result)
  with assms(1) show ?thesis by auto
next
  case Exited
  with assms(2) show ?thesis by simp
qed

lemma sum_rank_update:
  assumes "i < length p"
  shows "sum_list (map rank (p[i := ws])) + rank (p ! i) = sum_list (map rank p) + rank ws"
  using assms
proof (induction p arbitrary: i)
  case Nil
  then show ?case by simp
next
  case (Cons a p)
  then show ?case by (cases i) auto
qed

lemma step_progress:
  assumes "running (pool e) \<noteq> []"
    and "\<forall>u now f. Status (fst (Fetch w u now f)) = StatusError"
  shows "remaining (step w (Worker k now) e) < remaining e"
proof -
  define i where "i = running (pool e) ! (k mod length (running (pool e)))"
  from running_nth [OF assms(1), of k] have i: "i < length (pool e)" "pool e ! i \<noteq> Exited"
    by (simp_all add: i_def)
  obtain ws' c' rs' where ws: "worker_step w now (pool e ! i) (crawler e) (results e) = (ws', c', rs')"
    by (cases "worker_step w now (pool e ! i) (crawler e) (results e)")
  have st: "step w (Worker k now) e = e\<lparr>crawler := c', results := rs', pool := (pool e)[i := ws']\<rparr>"
    using assms(1) ws by (simp add: Let_def i_def)
  from worker_step_progress [OF ws i(2) assms(2)]
  have "rank ws' + 3 * length (buf (urls (frontier c')))
           < rank (pool e ! i) + 3 * length (buf (urls (frontier (crawler e))))" .
  moreover from sum_rank_update [OF i(1), of ws']
  have "sum_list (map rank ((pool e)[i := ws'])) + rank (pool e ! i)
          = sum_list (map rank (pool e)) + rank ws'" .
  ultimately show ?thesis by (simp add: remaining_def st del: step.simps)
qed

lemma remaining_Sink: "remaining (step w Sink e) = remaining e"
  by (simp add: remaining_def processResults_step_def split: option.splits prod.splits)

lemma rank_0: "rank ws = 0 \<longleftrightarrow> ws = Exited"
  by (cases ws) simp_all

lemma remaining_0: "remaining e = 0 \<Longrightarrow> running (pool e) = []"
  by (auto simp: remaining_def running_def filter_empty_conv rank_0)

lemma run_returns:
  assumes "\<forall>u now f. Status (fst (Fetch w u now f)) = StatusError"
  shows "remaining e \<le> worker_ticks ticks \<Longrightarrow> \<exists>e'. run w ticks e = Some e'"
proof (induction ticks arbitrary: e)
  case Nil
  then have "running (pool e) = []" by (simp add: remaining_0)
  then show ?case by simp
next
  case (Cons t ts)
  show ?case
  proof (cases "running (pool e) = []")
    case True
    then show ?thesis by simp
  next
    case False
    show ?thesis
    proof (cases t)
      case (Worker k now)
      from step_progress [OF False assms, of k now] Cons.prems Worker
      have "remaining (step w t e) \<le> worker_ticks ts" by simp
      then have "\<exists>e'. run w ts (step w t e) = Some e'" by (rule Cons.IH)
      with False show ?thesis by simp
    next
      case Sink
      have "remaining (step w t e) = remaining e" unfolding Sink by (rule remaining_Sink)
      with Cons.prems Sink have "remaining (step w t e) \<le> worker_ticks ts"
        by simp
      then have "\<exists>e'. run w ts (step w t e) = Some e'" by (rule Cons.IH)
      with False show ?thesis by simp
    qed
  qed
qed

lemma AddURL_length_le:
  "length (buf (urls (AddURL w rawURL d uf))) \<le> Suc (length (buf (urls uf)))"
  by (auto simp: AddURL_def Let_def select_send_def split: sum.splits)

text \<open>
  Claim C7. \<open>Crawl\<close> returns the error \<open>err\<close> exactly when \<open>NewParser\<close> fails with
  \<open>err\<close> on the seed URL; whatever the fetches do, no other error is returned. When the
  seed parses and every fetch ends in \<open>StatusError\<close>, \<open>Crawl\<close> returns nil under every
  schedule that gives the workers enough steps: two per worker and three for each URL
  pending after the seed is added.
\<close>

theorem Crawl_error_only_from_setup:
  "(Crawl w schedule startURL c = Some (Inl err) \<longleftrightarrow> NewParser w startURL = Inl err)
   \<and> ((\<exists>p. NewParser w startURL = Inr p)
        \<and> (\<forall>u now f. Status (fst (Fetch w u now f)) = StatusError)
        \<and> 2 * nat (workers c) + 3 * (length (buf (urls (frontier c))) + 1) \<le> worker_ticks schedule
      \<longrightarrow> (\<exists>e. Crawl w schedule startURL c = Some (Inr e)))"
proof -
  have a: "Crawl w schedule startURL c = Some (Inl err) \<longleftrightarrow> NewParser w startURL = Inl err"
    by (simp add: Crawl_def Let_def split: sum.splits option.splits)
  have b: "\<exists>e. Crawl w schedule startURL c = Some (Inr e)"
    if p: "NewParser w startURL = Inr p"
      and fails: "\<forall>u now f. Status (fst (Fetch w u now f)) = StatusError"
      and n: "2 * nat (workers c) + 3 * (length (buf (urls (frontier c))) + 1) \<le> worker_ticks schedule"
    for p
  proof -
    define e0 where "e0 = \<lparr>crawler = c\<lparr>parser := Some p, frontier := AddURL w startURL 0 (frontier c)\<rparr>,
         results = make_chan 100, pool = replicate (nat (workers c)) Polling\<rparr>"
    have "remaining e0 \<le> 2 * nat (workers c) + 3 * (length (buf (urls (frontier c))) + 1)"
      using AddURL_length_le [of w startURL 0 "frontier c"]
      by (simp add: remaining_def e0_def sum_list_replicate)
    with n have "remaining e0 \<le> worker_ticks schedule" by simp
    with fails obtain e' where "run w schedule e0 = Some e'" using run_returns by blast
    with p show ?thesis by (simp add: Crawl_def Let_def e0_def)
  qed
  from a b show ?thesis by blast
qed


theorem Crawl_error_only_from_setup_witness:
  "(\<exists>p. NewParser down_world ''http://a.test/'' = Inr p)
   \<and> (\<forall>u now f. Status (fst (Fetch down_world u now f)) = StatusError)
   \<and> 2 * nat (workers (NewCrawler 2 3 1000000000))
       + 3 * (length (buf (urls (frontier (NewCrawler 2 3 1000000000)))) + 1)
     \<le> worker_ticks retry_schedule
   \<and> (\<exists>e. Crawl down_world retry_schedule ''http://a.test/'' (NewCrawler 2 3 1000000000) = Some (Inr e))
   \<and> NewParser down_world [CHR 0x0A] = Inl (Err ''invalid control character in URL'')
   \<and> Crawl down_world retry_schedule [CHR 0x0A] (NewCrawler 2 3 1000000000)
       = Some (Inl (Err ''invalid control character in URL''))"
proof -
  have h1: "\<exists>p. NewParser down_world ''http://a.test/'' = Inr p"
    by (simp add: NewParser_def down_world_def test_world_def test_parse_def)
  have h2: "\<forall>u now f. Status (fst (Fetch down_world u now f)) = StatusError"
    by (simp add: Fetch_def Let_def down_world_def test_world_def split: sum.splits)
  have h3: "2 * nat (workers (NewCrawler 2 3 1000000000))
       + 3 * (length (buf (urls (frontier (NewCrawler 2 3 1000000000)))) + 1)
     \<le> worker_ticks retry_schedule"
    by (simp add: NewCrawler_def NewURLFrontier_def make_chan_def retry_schedule_def)
  have h4: "NewParser down_world [CHR 0x0A] = Inl (Err ''invalid control character in URL'')"
    by (simp add: NewParser_def down_world_def test_world_def test_parse_def)
  from Crawl_error_only_from_setup [of down_world retry_schedule "''http://a.test/''"
      "NewCrawler 2 3 1000000000"] h1 h2 h3
  have "\<exists>e. Crawl down_world retry_schedule ''http://a.test/'' (NewCrawler 2 3 1000000000) = Some (Inr e)"
    by blast
  moreover from Crawl_error_only_from_setup [of down_world retry_schedule "[CHR 0x0A]"
      "NewCrawler 2 3 1000000000" "Err ''invalid control character in URL''"] h4
  have "Crawl down_world retry_schedule [CHR 0x0A] (NewCrawler 2 3 1000000000)
       = Some (Inl (Err ''invalid control character in URL''))"
    by blast
  ultimately show ?thesis using h1 h2 h3 h4 by blast
qed


lemma retry_poll_drops_url:
  "buf (urls (frontier c)) = u # rest \<Longrightarrow>
   worker_step w now Retrying c rs =
     (Polling, c\<lparr>frontier := (frontier c)\<lparr>urls := (urls (frontier c))\<lparr>buf := rest\<rparr>\<rparr>\<rparr>, rs)"
  by (simp add: GetURL_def select_recv_def)

text \<open>
  Claim C1. The second \<open>GetURL\<close> of an idle worker (line 368) binds the URL it
  receives to the blank identifier and the worker continues with the next poll, so a URL
  dequeued there is never fetched. Under \<open>retry_schedule\<close> the seed page is fetched and
  its two links are added; each link is dequeued by the retry poll of an idle worker and
  dropped. \<open>Crawl\<close> returns nil with the frontier empty, both links marked visited and
  the seed page as the only result.
\<close>

theorem worker_retry_discards_url:
  "(case Crawl test_world retry_schedule ''http://a.test/'' (NewCrawler 2 3 1000000000) of
      Some (Inr e) \<Rightarrow>
        map URL (engine_results e) = [''http://a.test/'']
        \<and> Links (hd (engine_results e)) = [''http://a.test/1'', ''http://a.test/2'']
        \<and> buf (urls (frontier (crawler e))) = []
        \<and> is_visited (frontier (crawler e)) ''http://a.test/1''
        \<and> is_visited (frontier (crawler e)) ''http://a.test/2''
    | _ \<Rightarrow> False)"
  by code_simp

end
